theory Spec2Isabelle
  imports Main
begin

section \<open>Errors\<close>

text \<open>
  Go's \<^verbatim>\<open>error\<close> values, as far as the two source files tell them apart: the sentinel
  \<^verbatim>\<open>auth.ErrNoAccessTokenFound\<close>, the errors of the operating system that the file
  operations return, an error made from a message alone (\<^verbatim>\<open>fmt.Errorf\<close> without
  \<^verbatim>\<open>%w\<close>, or any opaque error of a collaborator), and an error that wraps another
  one (\<^verbatim>\<open>fmt.Errorf("...: %w", err)\<close>). A Go result \<^verbatim>\<open>error\<close> that may be
  \<^verbatim>\<open>nil\<close> is an \<open>error option\<close>, with \<open>None\<close> for \<^verbatim>\<open>nil\<close>.
\<close>

datatype error =
    ErrNoAccessTokenFound
  | ErrNotExist
  | ErrNotDir
  | ErrIsDir
  | ErrPermission
  | ErrorString string
  | Wrapped string error

text \<open>\<^verbatim>\<open>errors.Is(err, target)\<close>: the error itself or one it wraps is the target.\<close>

fun errors_Is :: "error \<Rightarrow> error \<Rightarrow> bool" where
  "errors_Is (Wrapped msg inner) target =
     (Wrapped msg inner = target \<or> errors_Is inner target)"
| "errors_Is err target = (err = target)"

section \<open>The release command\<close>

subsection \<open>Data and collaborators\<close>

text \<open>\<^verbatim>\<open>api.Revision\<close>, with the two fields the command reads.\<close>

record revision =
  ID :: string
  Tag :: string

record CreateReleaseRequest =
  RevisionID :: string
  AppID :: string
  Version :: string
  ReleaseNotes :: string
  DiscoveryList :: bool
  Channel :: string

definition ReleaseChannelExp :: string where
  "ReleaseChannelExp = ''experimental''"

text \<open>
  One call of \<^verbatim>\<open>scanner.Scan()\<close> on the log stream gives a line, or ends the loop
  with \<^verbatim>\<open>scanner.Err()\<close> being \<^verbatim>\<open>nil\<close> (end of the stream) or an error. A stream is
  the function from the number of the call to its outcome; it need not ever end.
\<close>

datatype scan = is_Line: Line (the_line: string) | EOF | ReadError error

type_synonym log_stream = "nat \<Rightarrow> scan"

text \<open>
  The collaborators of the command, each as the function from its request to its
  response: the API client (\<^verbatim>\<open>shared.Client\<close>), the interactive chooser
  (\<^verbatim>\<open>choose.Run\<close>, a function of the options it is offered), and the constant
  \<^verbatim>\<open>api.Complete\<close>, whose declaration is outside the two source files. The response
  of \<^verbatim>\<open>CreateRelease\<close> is the identifier \<^verbatim>\<open>cr.ID\<close>, that of
  \<^verbatim>\<open>GetReleasePromotion\<close> the status \<^verbatim>\<open>r.Status\<close>.
\<close>

record env =
  GetRevisions :: "string \<Rightarrow> error + revision list"
  choose_Run :: "string list \<Rightarrow> error + string"
  CreateRelease :: "CreateReleaseRequest \<Rightarrow> error + string"
  GetReleaseLogs :: "string \<Rightarrow> error + log_stream"
  GetReleasePromotion :: "string \<Rightarrow> error + string"
  Complete :: string

text \<open>What a run does to the outside, in order: the calls it makes and what it prints.\<close>

datatype message =
    LoginInfo
  | FailedToGetRevisions error
  | NoRevisionsFound
  | FailedToCreateRelease error
  | ErrorLine error
  | ScannerErrorLine error
  | FailedToCheckRelease string
  | EmptyLine
  | LiftOff
  | AvailableGlobally
  | AnyoneCanInstall
  | ListedOnDiscovery
  | FailedPleaseTryAgain

datatype event =
    Call_GetRevisions string
  | Call_choose_Run "string list"
  | Call_CreateRelease CreateReleaseRequest
  | Call_GetReleaseLogs string
  | Call_Scan
  | Call_Close
  | Call_GetReleasePromotion string
  | Logger message
  | Stdout string

subsection \<open>selectRevision\<close>

text \<open>
  The loop \<^verbatim>\<open>for _, revision := range revisions\<close>: it fills the map from tag to
  revision and appends the tag to \<^verbatim>\<open>tags\<close>.
\<close>

fun range_revisions ::
  "revision list \<Rightarrow> (string \<rightharpoonup> revision) \<times> string list \<Rightarrow> (string \<rightharpoonup> revision) \<times> string list"
where
  "range_revisions [] (revisionMap, tags) = (revisionMap, tags)"
| "range_revisions (revision # rest) (revisionMap, tags) =
     range_revisions rest (revisionMap(Tag revision \<mapsto> revision), tags @ [Tag revision])"

text \<open>
  The result is the pair of the revision pointer and the \<^verbatim>\<open>error\<close>, either of
  which can be \<^verbatim>\<open>nil\<close>, and the events of the call. After the first \<^verbatim>\<open>if err != nil\<close> has
  returned, the variable \<^verbatim>\<open>err\<close> is \<^verbatim>\<open>nil\<close>; the branch for the empty list
  returns that variable.
\<close>

definition selectRevision ::
  "env \<Rightarrow> string \<Rightarrow> bool \<Rightarrow> (revision option \<times> error option) \<times> event list"
where
  "selectRevision e projectID useLatestRevision =
     (case GetRevisions e projectID of
        Inl err \<Rightarrow>
          if errors_Is err ErrNoAccessTokenFound
          then ((None, Some err), [Call_GetRevisions projectID, Logger LoginInfo])
          else ((None, Some err), [Call_GetRevisions projectID, Logger (FailedToGetRevisions err)])
      | Inr revisions \<Rightarrow>
          (let err = (None :: error option) in
           case revisions of
             [] \<Rightarrow> ((None, err), [Call_GetRevisions projectID, Logger NoRevisionsFound])
           | latestRevision # _ \<Rightarrow>
               if useLatestRevision
               then ((Some latestRevision, None), [Call_GetRevisions projectID])
               else
                 (let revisions5 = (if length revisions > 5 then take 5 revisions else revisions);
                      (revisionMap, tags) = range_revisions revisions5 (Map.empty, [])
                  in case choose_Run e tags of
                       Inl err \<Rightarrow>
                         ((None, Some err), [Call_GetRevisions projectID, Call_choose_Run tags])
                     | Inr tag \<Rightarrow>
                         ((revisionMap tag, None),
                          [Call_GetRevisions projectID, Call_choose_Run tags]))))"

subsection \<open>release\<close>

text \<open>
  The loop \<^verbatim>\<open>for scanner.Scan() { line := scanner.Text(); fmt.Println(line) }\<close>
  followed by \<^verbatim>\<open>scanner.Err()\<close>. The argument \<open>i\<close> counts the calls of
  \<^verbatim>\<open>Scan\<close> made so far, \<open>tr\<close> holds the events so far. The result is
  \<^verbatim>\<open>scanner.Err()\<close> with the events; on a stream that never ends the loop does not
  return, which is the value \<open>None\<close>.
\<close>

partial_function (option) scanner_loop ::
  "log_stream \<Rightarrow> nat \<Rightarrow> event list \<Rightarrow> (error option \<times> event list) option"
where
  "scanner_loop readCloser i tr =
     (case readCloser i of
        Line line \<Rightarrow> scanner_loop readCloser (Suc i) (tr @ [Call_Scan, Stdout line])
      | EOF \<Rightarrow> Some (None, tr @ [Call_Scan])
      | ReadError err \<Rightarrow> Some (Some err, tr @ [Call_Scan]))"

text \<open>
  \<^verbatim>\<open>release\<close> returns an \<^verbatim>\<open>error\<close> (\<open>None\<close> for \<^verbatim>\<open>nil\<close>); the model adds
  the events of the run. \<^verbatim>\<open>defer readCloser.Close()\<close> runs when the function
  returns, on every path after the stream was opened, so \<open>Call_Close\<close> is the last
  event of those paths. The outer \<open>option\<close> is \<open>None\<close> when the run never returns.
  The promotion status is a string, and \<^verbatim>\<open>fmt.Errorf("release failed: %s", r.Status)\<close>
  is the error with that message.
\<close>

definition release ::
  "env \<Rightarrow> string \<Rightarrow> string \<Rightarrow> string \<Rightarrow> string \<Rightarrow> bool \<Rightarrow> string \<Rightarrow>
   (error option \<times> event list) option"
where
  "release e projectDir projectID revisionID releaseVersion listedRelease releaseNotes =
     (let req = \<lparr>RevisionID = revisionID, AppID = projectID, Version = releaseVersion,
                 ReleaseNotes = releaseNotes, DiscoveryList = listedRelease,
                 Channel = ReleaseChannelExp\<rparr>
      in case CreateRelease e req of
           Inl err \<Rightarrow>
             if errors_Is err ErrNoAccessTokenFound
             then Some (None, [Call_CreateRelease req, Logger LoginInfo])
             else Some (Some err, [Call_CreateRelease req, Logger (FailedToCreateRelease err)])
         | Inr cr_ID \<Rightarrow>
             (case GetReleaseLogs e cr_ID of
                Inl err \<Rightarrow>
                  Some (Some err,
                        [Call_CreateRelease req, Call_GetReleaseLogs cr_ID, Logger (ErrorLine err)])
              | Inr readCloser \<Rightarrow>
                  (case scanner_loop readCloser 0 [Call_CreateRelease req, Call_GetReleaseLogs cr_ID] of
                     None \<Rightarrow> None
                   | Some (Some err, tr) \<Rightarrow>
                       Some (Some err, tr @ [Logger (ScannerErrorLine err), Call_Close])
                   | Some (None, tr) \<Rightarrow>
                       (case GetReleasePromotion e cr_ID of
                          Inl err \<Rightarrow>
                            Some (Some err,
                                  tr @ [Call_GetReleasePromotion cr_ID,
                                        Logger (FailedToCheckRelease projectID), Call_Close])
                        | Inr status \<Rightarrow>
                            if status = Complete e
                            then Some (None,
                                       tr @ [Call_GetReleasePromotion cr_ID, Logger EmptyLine,
                                             Logger LiftOff, Logger AvailableGlobally,
                                             Logger AnyoneCanInstall]
                                          @ (if listedRelease then [Logger ListedOnDiscovery] else [])
                                          @ [Call_Close])
                            else Some (Some (ErrorString (''release failed: '' @ status)),
                                       tr @ [Call_GetReleasePromotion cr_ID,
                                             Logger FailedPleaseTryAgain, Call_Close])))))"

section \<open>The runtime manager\<close>

subsection \<open>The file system\<close>

text \<open>
  What the operating system answers for a path:
  \<^item> \<open>Absent\<close>: nothing is there, and its directory exists, so a file can be created;
  \<^item> \<open>NoParent\<close>: nothing is there, and a directory of the path is missing too
    (\<^verbatim>\<open>ENOENT\<close> also when creating);
  \<^item> \<open>NotDir\<close>: nothing is there, because a component of the path is a regular file
    (\<^verbatim>\<open>ENOTDIR\<close>);
  \<^item> \<open>File contents readable writable\<close>: a regular file with its bytes, and whether the
    process may open it for reading and for writing;
  \<^item> \<open>Dir\<close>: a directory;
  \<^item> \<open>Denied\<close>: a path in a directory the process may not search (\<^verbatim>\<open>EACCES\<close> for
    every operation).
  A write that fails changes nothing.
\<close>

datatype node = Absent | NoParent | NotDir | File string bool bool | Dir | Denied

type_synonym filesystem = "string \<Rightarrow> node"

text \<open>The permission constants of the source: octal 0760 and 0660.\<close>

definition dirPermMode :: nat where
  "dirPermMode = 7 * 64 + 6 * 8 + 0"

definition filePermMode :: nat where
  "filePermMode = 6 * 64 + 6 * 8 + 0"

text \<open>
  The owner's read bit (octal 0400) and write bit (octal 0200) of a mode. The process
  owns the files it creates, and its umask is taken to leave the owner's bits.
\<close>

definition owner_can_read :: "nat \<Rightarrow> bool" where
  "owner_can_read mode = (mode div 256 mod 2 = 1)"

definition owner_can_write :: "nat \<Rightarrow> bool" where
  "owner_can_write mode = (mode div 128 mod 2 = 1)"

text \<open>\<^verbatim>\<open>os.Stat\<close>, its error only. It does not need to open the file.\<close>

definition os_Stat :: "filesystem \<Rightarrow> string \<Rightarrow> error option" where
  "os_Stat fs path =
     (case fs path of
        Absent \<Rightarrow> Some ErrNotExist
      | NoParent \<Rightarrow> Some ErrNotExist
      | NotDir \<Rightarrow> Some ErrNotDir
      | File contents readable writable \<Rightarrow> None
      | Dir \<Rightarrow> None
      | Denied \<Rightarrow> Some ErrPermission)"

text \<open>
  \<^verbatim>\<open>os.IsNotExist\<close>, on the errors \<^verbatim>\<open>os.Stat\<close> returns: true of \<^verbatim>\<open>ENOENT\<close> only.
\<close>

definition os_IsNotExist :: "error \<Rightarrow> bool" where
  "os_IsNotExist err = (err = ErrNotExist)"

text \<open>
  \<^verbatim>\<open>ioutil.WriteFile(path, data, perm)\<close>: opens the file for writing, creating it
  with the mode \<open>perm\<close> when nothing is there, and replaces its contents. A file that
  exists keeps its mode.
\<close>

definition WriteFile ::
  "filesystem \<Rightarrow> string \<Rightarrow> string \<Rightarrow> nat \<Rightarrow> filesystem \<times> error option"
where
  "WriteFile fs path data perm =
     (case fs path of
        Absent \<Rightarrow> (fs(path := File data (owner_can_read perm) (owner_can_write perm)), None)
      | NoParent \<Rightarrow> (fs, Some ErrNotExist)
      | NotDir \<Rightarrow> (fs, Some ErrNotDir)
      | File contents readable writable \<Rightarrow>
          if writable then (fs(path := File data readable writable), None)
          else (fs, Some ErrPermission)
      | Dir \<Rightarrow> (fs, Some ErrIsDir)
      | Denied \<Rightarrow> (fs, Some ErrPermission))"

subsection \<open>Manager\<close>

record Manager =
  rootDir :: string
  spacePath :: string
  projectMetaPath :: string

text \<open>
  The method \<^verbatim>\<open>readFile\<close>: \<^verbatim>\<open>os.Open\<close>, then \<^verbatim>\<open>ioutil.ReadAll\<close>. Only
  \<^verbatim>\<open>ENOENT\<close> is \<^verbatim>\<open>os.ErrNotExist\<close>. A file the process may not read does not
  open. A directory opens, and reading it fails.
\<close>

definition readFile :: "filesystem \<Rightarrow> string \<Rightarrow> error + string" where
  "readFile fs path =
     (case fs path of
        Absent \<Rightarrow> Inl ErrNotExist
      | NoParent \<Rightarrow> Inl ErrNotExist
      | NotDir \<Rightarrow> Inl ErrNotDir
      | File contents readable writable \<Rightarrow>
          if readable then Inr contents else Inl ErrPermission
      | Dir \<Rightarrow> Inl ErrIsDir
      | Denied \<Rightarrow> Inl ErrPermission)"



text \<open>\<^verbatim>\<open>GetProjectMeta\<close> returns the pair of the metadata pointer and the error.\<close>

definition GetProjectMeta ::
  "(string \<Rightarrow> error + 'p) \<Rightarrow> filesystem \<Rightarrow> Manager \<Rightarrow> 'p option \<times> error option"
where
  "GetProjectMeta projectMetaFromBytes fs m =
     (case readFile fs (projectMetaPath m) of
        Inl err \<Rightarrow> if errors_Is err ErrNotExist then (None, None) else (None, Some err)
      | Inr contents \<Rightarrow>
          (case projectMetaFromBytes contents of
             Inl err \<Rightarrow> (None, Some err)
           | Inr projectMeta \<Rightarrow> (Some projectMeta, None)))"

definition IsProjectInitialized :: "filesystem \<Rightarrow> Manager \<Rightarrow> bool \<times> error option" where
  "IsProjectInitialized fs m =
     (case os_Stat fs (projectMetaPath m) of
        Some err \<Rightarrow> if os_IsNotExist err then (False, None) else (False, Some err)
      | None \<Rightarrow> (True, None))"

subsection \<open>AddSpaceToGitignore\<close>

text \<open>
  \<^verbatim>\<open>regexp.MatchString\<close> with the pattern \<^verbatim>\<open>(?m)^(\.space)\b\<close>, on bytes. The
  word characters of \<^verbatim>\<open>\b\<close> are \<^verbatim>\<open>[0-9A-Za-z_]\<close>. \<open>match_here\<close> is the match
  of \<^verbatim>\<open>(\.space)\b\<close> at the start of its argument: the six bytes, then the end of the
  text or a byte that is not a word character (the byte before the boundary is the
  letter e). \<open>match_from\<close> tries every position of the text; its flag says whether the
  position is one where \<^verbatim>\<open>^\<close> matches in multi-line mode: the start of the text or
  just after a newline.
\<close>

definition is_word_char :: "char \<Rightarrow> bool" where
  "is_word_char c =
     (let n = (of_char c :: nat)
      in (48 \<le> n \<and> n \<le> 57) \<or> (65 \<le> n \<and> n \<le> 90) \<or> n = 95 \<or> (97 \<le> n \<and> n \<le> 122))"

definition match_here :: "string \<Rightarrow> bool" where
  "match_here s =
     (take 6 s = ''.space'' \<and> (case drop 6 s of [] \<Rightarrow> True | c # rest \<Rightarrow> \<not> is_word_char c))"

fun match_from :: "bool \<Rightarrow> string \<Rightarrow> bool" where
  "match_from line_start [] = False"
| "match_from line_start (c # cs) =
     ((line_start \<and> match_here (c # cs)) \<or> match_from (c = CHR 0x0A) cs)"

definition MatchString_space :: "string \<Rightarrow> bool" where
  "MatchString_space s = match_from True s"

text \<open>
  \<^verbatim>\<open>AddSpaceToGitignore\<close>. When \<^verbatim>\<open>os.Stat\<close> fails with an error other than
  "does not exist", \<^verbatim>\<open>gitignoreExists\<close> stays true.
\<close>

definition AddSpaceToGitignore ::
  "(string \<Rightarrow> string \<Rightarrow> string) \<Rightarrow> filesystem \<Rightarrow> Manager \<Rightarrow> filesystem \<times> error option"
where
  "AddSpaceToGitignore Join fs m =
     (let gitignorePath = Join (rootDir m) ''.gitignore'';
          gitignoreExists =
            (case os_Stat fs gitignorePath of
               Some err \<Rightarrow> if os_IsNotExist err then False else True
             | None \<Rightarrow> True)
      in if gitignoreExists
         then
           (case readFile fs gitignorePath of
              Inl err \<Rightarrow> (fs, Some (Wrapped ''failed to append .space to .gitignore: '' err))
            | Inr contents \<Rightarrow>
                if MatchString_space contents then (fs, None)
                else
                  (case WriteFile fs gitignorePath (contents @ CHR 0x0A # ''.space'') filePermMode of
                     (fs1, Some err) \<Rightarrow>
                       (fs1, Some (Wrapped ''failed to append .space to .gitignore: '' err))
                   | (fs1, None) \<Rightarrow> (fs1, None)))
         else
           (case WriteFile fs gitignorePath ''.space'' filePermMode of
              (fs1, Some err) \<Rightarrow>
                (fs1, Some (Wrapped ''failed to write .space to .gitignore: '' err))
            | (fs1, None) \<Rightarrow> (fs1, None)))"

text \<open>
  The lines of a text, as cut at its newlines (the last line is what follows the last
  newline, and may be empty): the reading of the pattern that a claim below states.
\<close>

fun split_lines :: "string \<Rightarrow> string list" where
  "split_lines [] = [[]]"
| "split_lines (c # cs) =
     (if c = CHR 0x0A then [] # split_lines cs
      else (case split_lines cs of l # ls \<Rightarrow> (c # l) # ls | [] \<Rightarrow> [[c]]))"

section \<open>Notions used to state the properties\<close>

text \<open>
  The events of reading the lines \<open>k\<close> to \<open>k + n - 1\<close> of a stream and forwarding each
  to the standard output, in order.
\<close>

definition forwarded :: "log_stream \<Rightarrow> nat \<Rightarrow> nat \<Rightarrow> event list" where
  "forwarded readCloser k n =
     concat (map (\<lambda>i. [Call_Scan, Stdout (the_line (readCloser (k + i)))]) [0..<n])"

text \<open>
  The loop over a stream, started at call \<open>k\<close> with the events \<open>tr\<close>, has ended with
  the result \<open>y\<close>: some \<open>n\<close> lines were read and forwarded, and then a call of
  \<^verbatim>\<open>Scan\<close> gave no line.
\<close>

definition ended :: "log_stream \<Rightarrow> nat \<Rightarrow> event list \<Rightarrow> error option \<times> event list \<Rightarrow> bool" where
  "ended readCloser k tr y =
     (\<exists>n. (\<forall>i<n. is_Line (readCloser (k + i))) \<and> \<not> is_Line (readCloser (k + n)) \<and>
          snd y = tr @ forwarded readCloser k n @ [Call_Scan] \<and>
          fst y = (case readCloser (k + n) of ReadError err \<Rightarrow> Some err | _ \<Rightarrow> None))"


definition nothing_at :: "filesystem \<Rightarrow> string \<Rightarrow> bool" where
  "nothing_at fs path = (fs path = Absent \<or> fs path = NoParent \<or> fs path = NotDir)"

subsection \<open>Sample collaborators\<close>

text \<open>
  A log stream of two lines, and collaborators that answer every request: three
  revisions, the newest first, of which the first and the last carry the same tag; a
  chooser that picks that tag; a release that is created and promoted.
\<close>

definition sample_stream :: log_stream where
  "sample_stream =
     (\<lambda>i. if i = 0 then Line ''building'' else if i = 1 then Line ''promoting'' else EOF)"

definition sample_env :: env where
  "sample_env =
     \<lparr>GetRevisions =
        (\<lambda>projectID. Inr [\<lparr>ID = ''r3'', Tag = ''stable''\<rparr>, \<lparr>ID = ''r2'', Tag = ''fix''\<rparr>,
                           \<lparr>ID = ''r1'', Tag = ''stable''\<rparr>]),
      choose_Run = (\<lambda>tags. Inr ''stable''),
      CreateRelease = (\<lambda>req. Inr ''promo1''),
      GetReleaseLogs = (\<lambda>cr_ID. Inr sample_stream),
      GetReleasePromotion = (\<lambda>cr_ID. Inr ''complete''),
      Complete = ''complete''\<rparr>"

definition eight_revisions :: "revision list" where
  "eight_revisions =
     [\<lparr>ID = ''r8'', Tag = ''t8''\<rparr>, \<lparr>ID = ''r7'', Tag = ''t7''\<rparr>, \<lparr>ID = ''r6'', Tag = ''t6''\<rparr>,
      \<lparr>ID = ''r5'', Tag = ''t5''\<rparr>, \<lparr>ID = ''r4'', Tag = ''t4''\<rparr>, \<lparr>ID = ''r3'', Tag = ''t3''\<rparr>,
      \<lparr>ID = ''r2'', Tag = ''t2''\<rparr>, \<lparr>ID = ''r1'', Tag = ''t1''\<rparr>]"

text \<open>
  A project at \<^verbatim>\<open>/proj\<close> whose hidden directory exists and is empty, with the given
  node at \<^verbatim>\<open>/proj/.gitignore\<close>; a path join that writes a slash between its
  arguments; and a codec for metadata that is a project identifier.
\<close>

definition sample_Join :: "string \<Rightarrow> string \<Rightarrow> string" where
  "sample_Join dir name = dir @ ''/'' @ name"

definition sample_manager :: Manager where
  "sample_manager =
     \<lparr>rootDir = ''/proj'', spacePath = ''/proj/.space'', projectMetaPath = ''/proj/.space/meta''\<rparr>"

definition sample_fs :: "node \<Rightarrow> filesystem" where
  "sample_fs gitignore =
     (\<lambda>path. if path = ''/proj/.gitignore'' then gitignore
             else if path = ''/proj/.space'' then Dir
             else if path = ''/proj/.space/meta'' \<or> path = ''/proj/.space/README'' then Absent
             else NoParent)"


definition sample_FromBytes :: "string \<Rightarrow> error + string" where
  "sample_FromBytes contents =
     (if take 3 contents = ''id='' then Inr (drop 3 contents)
      else Inl (ErrorString ''failed to parse project meta''))"

section \<open>Properties of selectRevision\<close>

lemma range_revisions_tags:
  "snd (range_revisions revisions (revisionMap, tags)) = tags @ map Tag revisions"
  by (induction revisions arbitrary: revisionMap tags) simp_all

lemma range_revisions_absent:
  "t \<notin> Tag ` set revisions \<Longrightarrow>
   fst (range_revisions revisions (revisionMap, tags)) t = revisionMap t"
  by (induction revisions arbitrary: revisionMap tags) auto

text \<open>The map holds, for a tag, the last revision of the list that carries it.\<close>

lemma range_revisions_last:
  "j < length revisions \<Longrightarrow> Tag (revisions ! j) = t \<Longrightarrow>
   (\<forall>k. j < k \<and> k < length revisions \<longrightarrow> Tag (revisions ! k) \<noteq> t) \<Longrightarrow>
   fst (range_revisions revisions (revisionMap, tags)) t = Some (revisions ! j)"
proof (induction revisions arbitrary: revisionMap tags j)
  case Nil
  then show ?case by simp
next
  case (Cons r rs)
  show ?case
  proof (cases j)
    case 0
    have "t \<notin> Tag ` set rs"
    proof
      assume "t \<in> Tag ` set rs"
      then obtain k where "k < length rs" "Tag (rs ! k) = t"
        by (auto simp: in_set_conv_nth)
      with Cons.prems(3) 0 show False by (auto dest: spec[of _ "Suc k"])
    qed
    with 0 Cons.prems(2) show ?thesis
      by (simp add: range_revisions_absent)
  next
    case (Suc j')
    have "\<forall>k. j' < k \<and> k < length rs \<longrightarrow> Tag (rs ! k) \<noteq> t"
    proof (intro allI impI)
      fix k assume "j' < k \<and> k < length rs"
      then have "j < Suc k \<and> Suc k < length (r # rs)" using Suc by simp
      with Cons.prems(3) have "Tag ((r # rs) ! Suc k) \<noteq> t" by blast
      then show "Tag (rs ! k) \<noteq> t" by simp
    qed
    with Cons.prems Suc show ?thesis
      by (simp add: Cons.IH)
  qed
qed

lemma first_five: "(if length revisions > 5 then take 5 revisions else revisions) = take 5 revisions"
  by simp

text \<open>What \<^verbatim>\<open>selectRevision\<close> does on a list that is not empty, when asked to choose.\<close>

lemma selectRevision_choose:
  assumes "GetRevisions e projectID = Inr revisions" and "revisions \<noteq> []"
  shows "selectRevision e projectID False =
           (case choose_Run e (map Tag (take 5 revisions)) of
              Inl err \<Rightarrow>
                ((None, Some err),
                 [Call_GetRevisions projectID, Call_choose_Run (map Tag (take 5 revisions))])
            | Inr tag \<Rightarrow>
                ((fst (range_revisions (take 5 revisions) (Map.empty, [])) tag, None),
                 [Call_GetRevisions projectID, Call_choose_Run (map Tag (take 5 revisions))]))"
proof -
  obtain r rs where rs: "revisions = r # rs" using assms(2) by (cases revisions) auto
  obtain revisionMap tags where
    built: "range_revisions (take 5 revisions) (Map.empty, []) = (revisionMap, tags)"
    by (cases "range_revisions (take 5 revisions) (Map.empty, [])")
  have tags: "tags = map Tag (take 5 revisions)"
    using range_revisions_tags[of "take 5 revisions" Map.empty "[]"] built by simp
  show ?thesis
    using assms(1) built unfolding selectRevision_def first_five tags
    by (simp add: rs split: sum.split)
qed

text \<open>
  C1. When the fetch of the revisions succeeds with an empty list, the chooser is not
  called and the message that no revisions were found is logged; the error of the result,
  however, is \<^verbatim>\<open>nil\<close>, and so is the revision: the branch returns the variable
  \<^verbatim>\<open>err\<close>, which is \<^verbatim>\<open>nil\<close> once the fetch has succeeded. The call does not
  fail with a non-nil error.
\<close>

theorem selectRevision_empty_list_returns_nil_error:
  "GetRevisions e projectID = Inr [] \<Longrightarrow>
   selectRevision e projectID useLatestRevision =
     ((None, None), [Call_GetRevisions projectID, Logger NoRevisionsFound])"
  by (simp add: selectRevision_def)

theorem selectRevision_empty_list_witness:
  "selectRevision (sample_env\<lparr>GetRevisions := (\<lambda>projectID. Inr [])\<rparr>) ''app'' False =
     ((None, None), [Call_GetRevisions ''app'', Logger NoRevisionsFound])"
  by (rule selectRevision_empty_list_returns_nil_error) simp

text \<open>
  C8. When the list of revisions is not empty and the latest one is not asked for, the
  chooser is called once, with the tags of the first five revisions in the order of the
  list; a list of at most five revisions is offered whole.
\<close>

theorem selectRevision_offers_first_five:
  assumes "GetRevisions e projectID = Inr revisions" and "revisions \<noteq> []"
  shows "snd (selectRevision e projectID False) =
           [Call_GetRevisions projectID, Call_choose_Run (map Tag (take 5 revisions))] \<and>
         (length revisions \<le> 5 \<longrightarrow> map Tag (take 5 revisions) = map Tag revisions) \<and>
         (length revisions > 5 \<longrightarrow> length (map Tag (take 5 revisions)) = 5)"
  by (simp add: selectRevision_choose[OF assms] split: sum.split)

theorem selectRevision_offers_first_five_witness:
  "snd (selectRevision (sample_env\<lparr>GetRevisions := (\<lambda>projectID. Inr eight_revisions)\<rparr>) ''app'' False) =
     [Call_GetRevisions ''app'', Call_choose_Run [''t8'', ''t7'', ''t6'', ''t5'', ''t4'']] \<and>
   snd (selectRevision sample_env ''app'' False) =
     [Call_GetRevisions ''app'', Call_choose_Run [''stable'', ''fix'', ''stable'']]"
proof -
  have eight: "GetRevisions (sample_env\<lparr>GetRevisions := (\<lambda>projectID. Inr eight_revisions)\<rparr>) ''app''
                 = Inr eight_revisions"
    by simp
  have some: "eight_revisions \<noteq> []"
    by (simp add: eight_revisions_def)
  have three: "GetRevisions sample_env ''app'' =
                 Inr [\<lparr>ID = ''r3'', Tag = ''stable''\<rparr>, \<lparr>ID = ''r2'', Tag = ''fix''\<rparr>,
                      \<lparr>ID = ''r1'', Tag = ''stable''\<rparr>]"
    by (simp add: sample_env_def)
  show ?thesis
    using selectRevision_offers_first_five[OF eight some]
      selectRevision_offers_first_five[OF three]
    by (simp add: eight_revisions_def)
qed

text \<open>
  C10. When two of the first five revisions carry the same tag and the latest one is not
  asked for, the chooser is offered that tag at both positions, and choosing it returns
  the revision at the later position (the last of the window with that tag, which is the
  older one): the map from tag to revision is filled front to back, a later entry
  replacing an earlier one.
\<close>

theorem selectRevision_duplicate_tag_last_wins:
  assumes "GetRevisions e projectID = Inr revisions"
    and "i < j" and "j < length (take 5 revisions)"
    and "Tag (revisions ! i) = t" and "Tag (revisions ! j) = t"
    and "\<forall>k. j < k \<and> k < length (take 5 revisions) \<longrightarrow> Tag (revisions ! k) \<noteq> t"
    and "choose_Run e (map Tag (take 5 revisions)) = Inr t"
  shows "selectRevision e projectID False =
           ((Some (revisions ! j), None),
            [Call_GetRevisions projectID, Call_choose_Run (map Tag (take 5 revisions))]) \<and>
         map Tag (take 5 revisions) ! i = t \<and> map Tag (take 5 revisions) ! j = t"
proof -
  from assms(3) have some: "revisions \<noteq> []" by auto
  from assms(2,3) have i: "i < length (take 5 revisions)" by simp
  have at: "take 5 revisions ! k = revisions ! k" if "k < length (take 5 revisions)" for k
    using that by simp
  have "fst (range_revisions (take 5 revisions) (Map.empty, [])) t = Some (take 5 revisions ! j)"
  proof (rule range_revisions_last[OF assms(3)])
    show "Tag (take 5 revisions ! j) = t" using assms(3,5) at by simp
    show "\<forall>k. j < k \<and> k < length (take 5 revisions) \<longrightarrow> Tag (take 5 revisions ! k) \<noteq> t"
      using assms(6) at by simp
  qed
  then have "fst (range_revisions (take 5 revisions) (Map.empty, [])) t = Some (revisions ! j)"
    using at[OF assms(3)] by simp
  moreover have "map Tag (take 5 revisions) ! i = t"
    using i assms(4) at[OF i] by (simp only: nth_map)
  moreover have "map Tag (take 5 revisions) ! j = t"
    using assms(3,5) at[OF assms(3)] by (simp only: nth_map)
  ultimately show ?thesis
    by (simp add: selectRevision_choose[OF assms(1) some] assms(7))
qed

theorem selectRevision_duplicate_tag_last_wins_witness:
  "selectRevision sample_env ''app'' False =
     ((Some \<lparr>ID = ''r1'', Tag = ''stable''\<rparr>, None),
      [Call_GetRevisions ''app'', Call_choose_Run [''stable'', ''fix'', ''stable'']])"
proof -
  let ?revisions = "[\<lparr>ID = ''r3'', Tag = ''stable''\<rparr>, \<lparr>ID = ''r2'', Tag = ''fix''\<rparr>,
                     \<lparr>ID = ''r1'', Tag = ''stable''\<rparr>]"
  have fetched: "GetRevisions sample_env ''app'' = Inr ?revisions"
    by (simp add: sample_env_def)
  have order: "(0::nat) < 2" by simp
  have inside: "2 < length (take 5 ?revisions)" by simp
  have first: "Tag (?revisions ! 0) = ''stable''" by simp
  have last: "Tag (?revisions ! 2) = ''stable''" by simp
  have none_later: "\<forall>k. 2 < k \<and> k < length (take 5 ?revisions) \<longrightarrow> Tag (?revisions ! k) \<noteq> ''stable''"
    by simp
  have chosen: "choose_Run sample_env (map Tag (take 5 ?revisions)) = Inr ''stable''"
    by (simp add: sample_env_def)
  show ?thesis
    using selectRevision_duplicate_tag_last_wins[OF fetched order inside first last none_later chosen]
    by simp
qed

section \<open>Properties of release\<close>

subsection \<open>The loop over the log stream\<close>

lemma forwarded_Suc:
  "forwarded rd k (Suc n) = [Call_Scan, Stdout (the_line (rd k))] @ forwarded rd (Suc k) n"
proof -
  have "[0..<Suc n] = 0 # map Suc [0..<n]"
    by (simp add: upt_conv_Cons map_Suc_upt del: upt_Suc)
  then show ?thesis
    by (simp add: forwarded_def comp_def del: upt_Suc)
qed

lemma forwarded_events:
  "ev \<in> set (forwarded rd k n) \<Longrightarrow> ev = Call_Scan \<or> (\<exists>line. ev = Stdout line)"
  by (auto simp: forwarded_def split: if_splits)

text \<open>As long as the stream gives lines, the loop reads and forwards them.\<close>

lemma scanner_loop_lines:
  "(\<forall>i<n. is_Line (rd (k + i))) \<Longrightarrow>
   scanner_loop rd k tr = scanner_loop rd (k + n) (tr @ forwarded rd k n)"
proof (induction n arbitrary: k tr)
  case 0
  then show ?case by (simp add: forwarded_def)
next
  case (Suc n)
  from Suc.prems have "is_Line (rd k)" by (auto dest: spec[of _ 0])
  then obtain line where line: "rd k = Line line" by (cases "rd k") auto
  have rest: "\<forall>i<n. is_Line (rd (Suc k + i))"
  proof (intro allI impI)
    fix i assume "i < n"
    then have "Suc i < Suc n" by simp
    with Suc.prems have "is_Line (rd (k + Suc i))" by blast
    then show "is_Line (rd (Suc k + i))" by simp
  qed
  have "scanner_loop rd k tr = scanner_loop rd (Suc k) (tr @ [Call_Scan, Stdout line])"
    by (subst scanner_loop.simps) (simp add: line)
  also have "\<dots> = scanner_loop rd (Suc k + n)
                      ((tr @ [Call_Scan, Stdout line]) @ forwarded rd (Suc k) n)"
    by (rule Suc.IH[OF rest])
  finally show ?case by (simp add: forwarded_Suc line)
qed

text \<open>On a stream that ends after \<open>n\<close> lines the loop returns, with no error.\<close>

lemma scanner_loop_EOF:
  assumes "\<forall>i<n. is_Line (rd (k + i))" and "rd (k + n) = EOF"
  shows "scanner_loop rd k tr = Some (None, tr @ forwarded rd k n @ [Call_Scan])"
proof -
  have "scanner_loop rd k tr = scanner_loop rd (k + n) (tr @ forwarded rd k n)"
    by (rule scanner_loop_lines[OF assms(1)])
  also have "\<dots> = Some (None, (tr @ forwarded rd k n) @ [Call_Scan])"
    by (subst scanner_loop.simps) (simp add: assms(2))
  finally show ?thesis by simp
qed

lemma ended_step:
  assumes "rd k = Line line" and "ended rd (Suc k) (tr @ [Call_Scan, Stdout line]) y"
  shows "ended rd k tr y"
proof -
  from assms(2) obtain n where n:
      "\<forall>i<n. is_Line (rd (Suc k + i))" "\<not> is_Line (rd (Suc k + n))"
      "snd y = (tr @ [Call_Scan, Stdout line]) @ forwarded rd (Suc k) n @ [Call_Scan]"
      "fst y = (case rd (Suc k + n) of ReadError err \<Rightarrow> Some err | _ \<Rightarrow> None)"
    unfolding ended_def by (elim exE conjE)
  have "\<forall>i<Suc n. is_Line (rd (k + i))"
  proof (intro allI impI)
    fix i assume i: "i < Suc n"
    show "is_Line (rd (k + i))"
    proof (cases i)
      case 0
      then show ?thesis using assms(1) by simp
    next
      case (Suc i')
      with i have "i' < n" by simp
      with n(1) have "is_Line (rd (Suc k + i'))" by blast
      then show ?thesis using Suc by simp
    qed
  qed
  moreover have "\<not> is_Line (rd (k + Suc n))" using n(2) by simp
  moreover have "snd y = tr @ forwarded rd k (Suc n) @ [Call_Scan]"
    using n(3) assms(1) by (simp add: forwarded_Suc)
  moreover have "fst y = (case rd (k + Suc n) of ReadError err \<Rightarrow> Some err | _ \<Rightarrow> None)"
    using n(4) by simp
  ultimately show ?thesis unfolding ended_def by (intro exI[of _ "Suc n"] conjI)
qed

lemma ended_stop:
  "rd k = EOF \<Longrightarrow> ended rd k tr (None, tr @ [Call_Scan])"
  "rd k = ReadError err \<Longrightarrow> ended rd k tr (Some err, tr @ [Call_Scan])"
  unfolding ended_def by (rule exI[of _ 0], simp add: forwarded_def)+

text \<open>
  Whenever the loop returns, it has read and forwarded every line up to the first call
  that gave none. The proof is by induction over the recursion of the loop.
\<close>

lemma scanner_loop_ended:
  assumes "scanner_loop rd k tr = Some y"
  shows "ended rd k tr y"
proof (rule scanner_loop.raw_induct[where P = ended, OF _ assms])
  fix loop :: "log_stream \<Rightarrow> nat \<Rightarrow> event list \<Rightarrow> (error option \<times> event list) option"
  fix rd k tr y
  assume IH: "\<And>rd k tr y. loop rd k tr = Some y \<Longrightarrow> ended rd k tr y"
  assume step: "(case rd k of
        Line line \<Rightarrow> loop rd (Suc k) (tr @ [Call_Scan, Stdout line])
      | EOF \<Rightarrow> Some (None, tr @ [Call_Scan])
      | ReadError err \<Rightarrow> Some (Some err, tr @ [Call_Scan])) = Some y"
  show "ended rd k tr y"
  proof (cases "rd k")
    case (Line line)
    with step have "loop rd (Suc k) (tr @ [Call_Scan, Stdout line]) = Some y" by simp
    from ended_step[OF Line IH[OF this]] show ?thesis .
  next
    case EOF
    with step have "y = (None, tr @ [Call_Scan])" by simp
    with EOF show ?thesis by (simp add: ended_stop)
  next
    case (ReadError err)
    with step have "y = (Some err, tr @ [Call_Scan])" by simp
    with ReadError show ?thesis by (simp add: ended_stop)
  qed
qed

lemma sample_stream_lines: "\<forall>i<2. is_Line (sample_stream i)"
  by (simp add: sample_stream_def)

lemma sample_stream_end: "sample_stream 2 = EOF"
  by (simp add: sample_stream_def)

subsection \<open>The run\<close>

text \<open>
  C2. When the call that creates the release returns an error that is (or wraps)
  \<^verbatim>\<open>auth.ErrNoAccessTokenFound\<close>, the run consists of that call and the login
  guidance: no log stream is opened, the promotion status is not queried, and the result
  is \<^verbatim>\<open>nil\<close>. On any other error of that call the run logs the failure and returns
  the error.
\<close>

theorem release_unauthenticated_stops:
  assumes "CreateRelease e \<lparr>RevisionID = revisionID, AppID = projectID, Version = releaseVersion,
             ReleaseNotes = releaseNotes, DiscoveryList = listedRelease,
             Channel = ReleaseChannelExp\<rparr> = Inl err"
  shows "(errors_Is err ErrNoAccessTokenFound \<longrightarrow>
            release e projectDir projectID revisionID releaseVersion listedRelease releaseNotes =
              Some (None, [Call_CreateRelease \<lparr>RevisionID = revisionID, AppID = projectID,
                             Version = releaseVersion, ReleaseNotes = releaseNotes,
                             DiscoveryList = listedRelease, Channel = ReleaseChannelExp\<rparr>,
                           Logger LoginInfo])) \<and>
         (\<not> errors_Is err ErrNoAccessTokenFound \<longrightarrow>
            release e projectDir projectID revisionID releaseVersion listedRelease releaseNotes =
              Some (Some err, [Call_CreateRelease \<lparr>RevisionID = revisionID, AppID = projectID,
                             Version = releaseVersion, ReleaseNotes = releaseNotes,
                             DiscoveryList = listedRelease, Channel = ReleaseChannelExp\<rparr>,
                           Logger (FailedToCreateRelease err)]))"
  using assms by (simp add: release_def)

theorem release_unauthenticated_stops_witness:
  "release (sample_env\<lparr>CreateRelease := (\<lambda>req. Inl (Wrapped ''request failed: '' ErrNoAccessTokenFound))\<rparr>)
     ''.'' ''app'' ''r3'' ''1.0'' True ''notes'' =
     Some (None, [Call_CreateRelease \<lparr>RevisionID = ''r3'', AppID = ''app'', Version = ''1.0'',
                    ReleaseNotes = ''notes'', DiscoveryList = True, Channel = ReleaseChannelExp\<rparr>,
                  Logger LoginInfo]) \<and>
   release (sample_env\<lparr>CreateRelease := (\<lambda>req. Inl (ErrorString ''conflict''))\<rparr>)
     ''.'' ''app'' ''r3'' ''1.0'' True ''notes'' =
     Some (Some (ErrorString ''conflict''),
           [Call_CreateRelease \<lparr>RevisionID = ''r3'', AppID = ''app'', Version = ''1.0'',
              ReleaseNotes = ''notes'', DiscoveryList = True, Channel = ReleaseChannelExp\<rparr>,
            Logger (FailedToCreateRelease (ErrorString ''conflict''))])"
proof -
  let ?req = "\<lparr>RevisionID = ''r3'', AppID = ''app'', Version = ''1.0'',
                ReleaseNotes = ''notes'', DiscoveryList = True, Channel = ReleaseChannelExp\<rparr>"
  let ?noToken = "Wrapped ''request failed: '' ErrNoAccessTokenFound"
  have refused: "CreateRelease (sample_env\<lparr>CreateRelease := (\<lambda>req. Inl ?noToken)\<rparr>) ?req = Inl ?noToken"
    by simp
  have conflict: "CreateRelease (sample_env\<lparr>CreateRelease := (\<lambda>req. Inl (ErrorString ''conflict''))\<rparr>) ?req
                    = Inl (ErrorString ''conflict'')"
    by simp
  have is_token: "errors_Is ?noToken ErrNoAccessTokenFound" by simp
  have no_token: "\<not> errors_Is (ErrorString ''conflict'') ErrNoAccessTokenFound" by simp
  show ?thesis
    using release_unauthenticated_stops[OF refused, of "''.''"]
      release_unauthenticated_stops[OF conflict, of "''.''"] is_token no_token
    by blast
qed

text \<open>
  C3. In every run that queries the promotion status, the query comes after the log
  stream was read to its end: the events of the run are the creation of the release,
  the opening of the stream, then each of the \<open>n\<close> lines of the stream read and written
  to the standard output, in order, then the call of \<^verbatim>\<open>Scan\<close> that finds the end
  of the stream, then the query. After the query nothing is read from the stream and
  no line is forwarded, and there is no second query.
\<close>

theorem release_streams_before_polling:
  assumes run: "release e projectDir projectID revisionID releaseVersion listedRelease releaseNotes
                  = Some (res, tr)"
    and polled: "Call_GetReleasePromotion promotionID \<in> set tr"
  shows "\<exists>cr_ID readCloser n rest.
           CreateRelease e \<lparr>RevisionID = revisionID, AppID = projectID, Version = releaseVersion,
             ReleaseNotes = releaseNotes, DiscoveryList = listedRelease,
             Channel = ReleaseChannelExp\<rparr> = Inr cr_ID \<and>
           GetReleaseLogs e cr_ID = Inr readCloser \<and>
           (\<forall>i<n. is_Line (readCloser i)) \<and> readCloser n = EOF \<and>
           tr = [Call_CreateRelease \<lparr>RevisionID = revisionID, AppID = projectID,
                   Version = releaseVersion, ReleaseNotes = releaseNotes,
                   DiscoveryList = listedRelease, Channel = ReleaseChannelExp\<rparr>,
                 Call_GetReleaseLogs cr_ID]
                @ forwarded readCloser 0 n
                @ [Call_Scan, Call_GetReleasePromotion cr_ID] @ rest \<and>
           promotionID = cr_ID \<and>
           Call_Scan \<notin> set rest \<and> (\<forall>line. Stdout line \<notin> set rest) \<and>
           (\<forall>p. Call_GetReleasePromotion p \<notin> set rest)"
proof -
  define req where "req = \<lparr>RevisionID = revisionID, AppID = projectID, Version = releaseVersion,
             ReleaseNotes = releaseNotes, DiscoveryList = listedRelease,
             Channel = ReleaseChannelExp\<rparr>"
  show ?thesis
  proof (cases "CreateRelease e req")
    case (Inl err)
    with run polled show ?thesis
      by (auto simp: release_def Let_def req_def split: if_splits)
  next
    case created: (Inr cr_ID)
    show ?thesis
    proof (cases "GetReleaseLogs e cr_ID")
      case (Inl err)
      with run polled created show ?thesis
        by (auto simp: release_def Let_def req_def)
    next
      case opened: (Inr readCloser)
      define tr0 where "tr0 = [Call_CreateRelease req, Call_GetReleaseLogs cr_ID]"
      note release_unfolded = release_def Let_def req_def tr0_def
      show ?thesis
      proof (cases "scanner_loop readCloser 0 tr0")
        case None
        with run created opened show ?thesis
          by (simp add: release_unfolded)
      next
        case (Some y)
        obtain r tr1 where y: "y = (r, tr1)" by (cases y)
        from scanner_loop_ended[OF Some] obtain n where
          all_lines: "\<forall>i<n. is_Line (readCloser i)" and stop: "\<not> is_Line (readCloser n)" and
          tr1: "tr1 = tr0 @ forwarded readCloser 0 n @ [Call_Scan]" and
          err: "r = (case readCloser n of ReadError err \<Rightarrow> Some err | _ \<Rightarrow> None)"
          unfolding ended_def y by auto
        have quiet: "Call_GetReleasePromotion promotionID \<notin> set (forwarded readCloser 0 n)"
          using forwarded_events[of "Call_GetReleasePromotion promotionID" readCloser 0 n] by auto
        show ?thesis
        proof (cases r)
          case broken: (Some err')
          with run created opened Some y have "tr = tr1 @ [Logger (ScannerErrorLine err'), Call_Close]"
            by (simp add: release_unfolded)
          with polled tr1 quiet show ?thesis by (simp add: tr0_def)
        next
          case None
          with err stop have eof: "readCloser n = EOF" by (cases "readCloser n") simp_all
          show ?thesis
          proof (cases "GetReleasePromotion e cr_ID")
            case (Inl err')
            with run created opened Some y None
            have "tr = tr1 @ [Call_GetReleasePromotion cr_ID,
                              Logger (FailedToCheckRelease projectID), Call_Close]"
              by (simp add: release_unfolded)
            with polled tr1 quiet all_lines eof created opened show ?thesis
              by (intro exI[of _ cr_ID] exI[of _ readCloser] exI[of _ n]
                    exI[of _ "[Logger (FailedToCheckRelease projectID), Call_Close]"])
                 (simp add: tr0_def req_def)
          next
            case (Inr status)
            show ?thesis
            proof (cases "status = Complete e")
              case True
              with run created opened Some y None Inr
              have "tr = tr1 @ [Call_GetReleasePromotion cr_ID, Logger EmptyLine,
                                Logger LiftOff, Logger AvailableGlobally, Logger AnyoneCanInstall]
                             @ (if listedRelease then [Logger ListedOnDiscovery] else [])
                             @ [Call_Close]"
                by (simp add: release_unfolded)
              with polled tr1 quiet all_lines eof created opened show ?thesis
                by (intro exI[of _ cr_ID] exI[of _ readCloser] exI[of _ n]
                      exI[of _ "[Logger EmptyLine, Logger LiftOff, Logger AvailableGlobally,
                                 Logger AnyoneCanInstall]
                               @ (if listedRelease then [Logger ListedOnDiscovery] else [])
                               @ [Call_Close]"])
                   (simp add: tr0_def req_def)
            next
              case False
              with run created opened Some y None Inr
              have "tr = tr1 @ [Call_GetReleasePromotion cr_ID, Logger FailedPleaseTryAgain,
                                Call_Close]"
                by (simp add: release_unfolded)
              with polled tr1 quiet all_lines eof created opened show ?thesis
                by (intro exI[of _ cr_ID] exI[of _ readCloser] exI[of _ n]
                      exI[of _ "[Logger FailedPleaseTryAgain, Call_Close]"])
                   (simp add: tr0_def req_def)
            qed
          qed
        qed
      qed
    qed
  qed
qed

theorem release_streams_before_polling_witness:
  "\<exists>cr_ID readCloser n rest.
     CreateRelease sample_env \<lparr>RevisionID = ''r3'', AppID = ''app'', Version = ''1.0'',
       ReleaseNotes = ''notes'', DiscoveryList = False, Channel = ReleaseChannelExp\<rparr> = Inr cr_ID \<and>
     GetReleaseLogs sample_env cr_ID = Inr readCloser \<and>
     (\<forall>i<n. is_Line (readCloser i)) \<and> readCloser n = EOF \<and>
     [Call_CreateRelease \<lparr>RevisionID = ''r3'', AppID = ''app'', Version = ''1.0'',
        ReleaseNotes = ''notes'', DiscoveryList = False, Channel = ReleaseChannelExp\<rparr>,
      Call_GetReleaseLogs ''promo1'',
      Call_Scan, Stdout ''building'', Call_Scan, Stdout ''promoting'', Call_Scan,
      Call_GetReleasePromotion ''promo1'',
      Logger EmptyLine, Logger LiftOff, Logger AvailableGlobally, Logger AnyoneCanInstall,
      Call_Close]
       = [Call_CreateRelease \<lparr>RevisionID = ''r3'', AppID = ''app'', Version = ''1.0'',
            ReleaseNotes = ''notes'', DiscoveryList = False, Channel = ReleaseChannelExp\<rparr>,
          Call_GetReleaseLogs cr_ID]
         @ forwarded readCloser 0 n
         @ [Call_Scan, Call_GetReleasePromotion cr_ID] @ rest \<and>
     ''promo1'' = cr_ID \<and>
     Call_Scan \<notin> set rest \<and> (\<forall>line. Stdout line \<notin> set rest) \<and>
     (\<forall>p. Call_GetReleasePromotion p \<notin> set rest)"
proof -
  let ?req = "\<lparr>RevisionID = ''r3'', AppID = ''app'', Version = ''1.0'',
                ReleaseNotes = ''notes'', DiscoveryList = False, Channel = ReleaseChannelExp\<rparr>"
  let ?tr = "[Call_CreateRelease ?req, Call_GetReleaseLogs ''promo1'',
      Call_Scan, Stdout ''building'', Call_Scan, Stdout ''promoting'', Call_Scan,
      Call_GetReleasePromotion ''promo1'',
      Logger EmptyLine, Logger LiftOff, Logger AvailableGlobally, Logger AnyoneCanInstall,
      Call_Close]"
  have loop: "scanner_loop sample_stream 0 tr0 =
                Some (None, tr0 @ [Call_Scan, Stdout ''building'', Call_Scan, Stdout ''promoting'',
                                   Call_Scan])" for tr0
    by (simp add: scanner_loop.simps sample_stream_def)
  have run: "release sample_env ''.'' ''app'' ''r3'' ''1.0'' False ''notes'' = Some (None, ?tr)"
    by (simp add: release_def Let_def sample_env_def loop)
  have polled: "Call_GetReleasePromotion ''promo1'' \<in> set ?tr"
    by simp
  show ?thesis
    by (rule release_streams_before_polling[OF run polled])
qed

text \<open>
  C4. In a run that obtains a promotion status (the release is created, the stream is
  opened and ends after \<open>n\<close> lines, the query answers with a status): when the status
  is \<^verbatim>\<open>api.Complete\<close> the run returns \<^verbatim>\<open>nil\<close>, and it logs the line on the
  Discovery listing exactly when \<^verbatim>\<open>listedRelease\<close> is set; for every other status
  it returns the error whose message is "release failed: " followed by the status.
\<close>

theorem release_terminal_classification:
  assumes "CreateRelease e \<lparr>RevisionID = revisionID, AppID = projectID, Version = releaseVersion,
             ReleaseNotes = releaseNotes, DiscoveryList = listedRelease,
             Channel = ReleaseChannelExp\<rparr> = Inr cr_ID"
    and "GetReleaseLogs e cr_ID = Inr readCloser"
    and "\<forall>i<n. is_Line (readCloser i)" and "readCloser n = EOF"
    and "GetReleasePromotion e cr_ID = Inr status"
  shows "(status = Complete e \<longrightarrow>
           (\<exists>tr. release e projectDir projectID revisionID releaseVersion listedRelease releaseNotes
                   = Some (None, tr) \<and>
                 (Logger ListedOnDiscovery \<in> set tr \<longleftrightarrow> listedRelease))) \<and>
         (status \<noteq> Complete e \<longrightarrow>
           (\<exists>tr. release e projectDir projectID revisionID releaseVersion listedRelease releaseNotes
                   = Some (Some (ErrorString (''release failed: '' @ status)), tr)))"
proof -
  have loop: "scanner_loop readCloser 0 tr0 =
                Some (None, tr0 @ forwarded readCloser 0 n @ [Call_Scan])" for tr0
    using scanner_loop_EOF[of n readCloser 0 tr0] assms(3,4) by simp
  have quiet: "Logger ListedOnDiscovery \<notin> set (forwarded readCloser 0 n)"
    using forwarded_events[of "Logger ListedOnDiscovery" readCloser 0 n] by auto
  show ?thesis
    using assms(1,2,5) quiet by (simp add: release_def loop)
qed

theorem release_terminal_classification_witness:
  "(\<exists>tr. release sample_env ''.'' ''app'' ''r3'' ''1.0'' True ''notes'' = Some (None, tr) \<and>
         Logger ListedOnDiscovery \<in> set tr) \<and>
   (\<exists>tr. release sample_env ''.'' ''app'' ''r3'' ''1.0'' False ''notes'' = Some (None, tr) \<and>
         Logger ListedOnDiscovery \<notin> set tr) \<and>
   (\<exists>tr. release (sample_env\<lparr>GetReleasePromotion := (\<lambda>cr_ID. Inr ''failed'')\<rparr>)
            ''.'' ''app'' ''r3'' ''1.0'' True ''notes''
          = Some (Some (ErrorString ''release failed: failed''), tr))"
proof -
  let ?failing = "sample_env\<lparr>GetReleasePromotion := (\<lambda>cr_ID. Inr ''failed'')\<rparr>"
  have created: "CreateRelease sample_env \<lparr>RevisionID = ''r3'', AppID = ''app'', Version = ''1.0'',
           ReleaseNotes = ''notes'', DiscoveryList = listed, Channel = ReleaseChannelExp\<rparr> = Inr ''promo1''"
    for listed by (simp add: sample_env_def)
  have opened: "GetReleaseLogs sample_env ''promo1'' = Inr sample_stream"
    by (simp add: sample_env_def)
  have promoted: "GetReleasePromotion sample_env ''promo1'' = Inr ''complete''"
    by (simp add: sample_env_def)
  have complete: "''complete'' = Complete sample_env"
    by (simp add: sample_env_def)
  have created': "CreateRelease ?failing \<lparr>RevisionID = ''r3'', AppID = ''app'', Version = ''1.0'',
           ReleaseNotes = ''notes'', DiscoveryList = True, Channel = ReleaseChannelExp\<rparr> = Inr ''promo1''"
    by (simp add: sample_env_def)
  have opened': "GetReleaseLogs ?failing ''promo1'' = Inr sample_stream"
    by (simp add: sample_env_def)
  have promoted': "GetReleasePromotion ?failing ''promo1'' = Inr ''failed''"
    by simp
  have incomplete: "''failed'' \<noteq> Complete ?failing"
    by (simp add: sample_env_def)
  show ?thesis
    using release_terminal_classification[OF created[of True] opened sample_stream_lines
            sample_stream_end promoted, where projectDir = "''.''"]
      release_terminal_classification[OF created[of False] opened sample_stream_lines
            sample_stream_end promoted, where projectDir = "''.''"]
      release_terminal_classification[OF created' opened' sample_stream_lines sample_stream_end
            promoted', where projectDir = "''.''"]
      complete incomplete
    by simp
qed

section \<open>Properties of the runtime manager\<close>

subsection \<open>Project metadata\<close>

lemma owner_bits_filePermMode: "owner_can_read filePermMode" "owner_can_write filePermMode"
  by (simp_all add: owner_can_read_def owner_can_write_def filePermMode_def)



lemma WriteFile_unchanged:
  "WriteFile fs path data perm = (fs1, Some err) \<Longrightarrow> fs1 = fs"
  by (auto simp: WriteFile_def split: node.splits if_splits)






text \<open>
  C6 (amended). \<^verbatim>\<open>GetProjectMeta\<close> returns \<^verbatim>\<open>nil\<close> metadata and a \<^verbatim>\<open>nil\<close>
  error exactly when opening the metadata file fails with "does not exist"
  (\<^verbatim>\<open>ENOENT\<close>: the file, or a directory of its path, is missing). When the file is
  missing because a component of its path is a regular file (\<^verbatim>\<open>ENOTDIR\<close>), it
  returns that error. When reading the file fails with any error that is not "does not
  exist", or the bytes read do not decode, it returns that error.
\<close>

theorem GetProjectMeta_not_exist_or_error:
  "(GetProjectMeta projectMetaFromBytes fs m = (None, None) \<longleftrightarrow>
      fs (projectMetaPath m) = Absent \<or> fs (projectMetaPath m) = NoParent) \<and>
   (fs (projectMetaPath m) = NotDir \<longrightarrow>
      GetProjectMeta projectMetaFromBytes fs m = (None, Some ErrNotDir)) \<and>
   (readFile fs (projectMetaPath m) = Inl err \<and> \<not> errors_Is err ErrNotExist \<longrightarrow>
      GetProjectMeta projectMetaFromBytes fs m = (None, Some err)) \<and>
   (readFile fs (projectMetaPath m) = Inr contents \<and> projectMetaFromBytes contents = Inl err \<longrightarrow>
      GetProjectMeta projectMetaFromBytes fs m = (None, Some err))"
proof (intro conjI impI)
  show "GetProjectMeta projectMetaFromBytes fs m = (None, None) \<longleftrightarrow>
          fs (projectMetaPath m) = Absent \<or> fs (projectMetaPath m) = NoParent"
    by (cases "fs (projectMetaPath m)")
       (auto simp: GetProjectMeta_def readFile_def split: sum.splits)
next
  assume "fs (projectMetaPath m) = NotDir"
  then show "GetProjectMeta projectMetaFromBytes fs m = (None, Some ErrNotDir)"
    by (simp add: GetProjectMeta_def readFile_def)
next
  assume "readFile fs (projectMetaPath m) = Inl err \<and> \<not> errors_Is err ErrNotExist"
  then show "GetProjectMeta projectMetaFromBytes fs m = (None, Some err)"
    by (simp add: GetProjectMeta_def)
next
  assume "readFile fs (projectMetaPath m) = Inr contents \<and> projectMetaFromBytes contents = Inl err"
  then show "GetProjectMeta projectMetaFromBytes fs m = (None, Some err)"
    by (simp add: GetProjectMeta_def)
qed

theorem GetProjectMeta_not_exist_or_error_witness:
  "GetProjectMeta sample_FromBytes (sample_fs Absent) sample_manager = (None, None) \<and>
   GetProjectMeta sample_FromBytes ((sample_fs Absent)(''/proj/.space/meta'' := NotDir)) sample_manager
     = (None, Some ErrNotDir) \<and>
   GetProjectMeta sample_FromBytes ((sample_fs Absent)(''/proj/.space/meta'' := Dir)) sample_manager
     = (None, Some ErrIsDir) \<and>
   GetProjectMeta sample_FromBytes
     ((sample_fs Absent)(''/proj/.space/meta'' := File ''{}'' True True)) sample_manager
     = (None, Some (ErrorString ''failed to parse project meta''))"
proof -
  have absent: "sample_fs Absent (projectMetaPath sample_manager) = Absent"
    by (simp add: sample_fs_def sample_manager_def)
  have under_file:
    "((sample_fs Absent)(''/proj/.space/meta'' := NotDir)) (projectMetaPath sample_manager) = NotDir"
    by (simp add: sample_manager_def)
  have unreadable:
    "readFile ((sample_fs Absent)(''/proj/.space/meta'' := Dir)) (projectMetaPath sample_manager)
       = Inl ErrIsDir"
    by (simp add: readFile_def sample_manager_def)
  have other: "\<not> errors_Is ErrIsDir ErrNotExist"
    by simp
  have readable:
    "readFile ((sample_fs Absent)(''/proj/.space/meta'' := File ''{}'' True True))
       (projectMetaPath sample_manager) = Inr ''{}''"
    by (simp add: readFile_def sample_manager_def)
  have undecodable: "sample_FromBytes ''{}'' = Inl (ErrorString ''failed to parse project meta'')"
    by (simp add: sample_FromBytes_def)
  have "GetProjectMeta sample_FromBytes (sample_fs Absent) sample_manager = (None, None)"
    using GetProjectMeta_not_exist_or_error[of sample_FromBytes "sample_fs Absent" sample_manager]
      absent by simp
  moreover
  have "GetProjectMeta sample_FromBytes ((sample_fs Absent)(''/proj/.space/meta'' := NotDir))
          sample_manager = (None, Some ErrNotDir)"
    using GetProjectMeta_not_exist_or_error[of sample_FromBytes
        "(sample_fs Absent)(''/proj/.space/meta'' := NotDir)" sample_manager]
      under_file by simp
  moreover
  have "GetProjectMeta sample_FromBytes ((sample_fs Absent)(''/proj/.space/meta'' := Dir))
          sample_manager = (None, Some ErrIsDir)"
    using GetProjectMeta_not_exist_or_error[of sample_FromBytes
        "(sample_fs Absent)(''/proj/.space/meta'' := Dir)" sample_manager ErrIsDir]
      unreadable other by simp
  moreover
  have "GetProjectMeta sample_FromBytes
          ((sample_fs Absent)(''/proj/.space/meta'' := File ''{}'' True True)) sample_manager
          = (None, Some (ErrorString ''failed to parse project meta''))"
    using GetProjectMeta_not_exist_or_error[of sample_FromBytes
        "(sample_fs Absent)(''/proj/.space/meta'' := File ''{}'' True True)" sample_manager
        "ErrorString ''failed to parse project meta''" "''{}''"]
      readable undecodable by simp
  ultimately show ?thesis
    by (intro conjI)
qed

text \<open>
  The claim C6 as stated fails where the hidden directory's name is taken by a regular
  file: no metadata file exists, and \<^verbatim>\<open>GetProjectMeta\<close> returns an error.
\<close>

theorem GetProjectMeta_missing_under_file_counterexample:
  "nothing_at ((sample_fs Absent)(''/proj/.space'' := File ''notes'' True True,
                                  ''/proj/.space/meta'' := NotDir))
     (projectMetaPath sample_manager) \<and>
   GetProjectMeta sample_FromBytes
     ((sample_fs Absent)(''/proj/.space'' := File ''notes'' True True,
                         ''/proj/.space/meta'' := NotDir))
     sample_manager = (None, Some ErrNotDir)"
  by (simp add: nothing_at_def GetProjectMeta_def readFile_def sample_manager_def)

subsection \<open>The pattern\<close>

lemma match_from_appended:
  "match_from line_start (contents @ CHR 0x0A # ''.space'')"
proof (induction contents arbitrary: line_start)
  case Nil
  show ?case by (simp add: match_here_def)
next
  case (Cons c cs)
  then show ?case by simp
qed

lemma MatchString_space_only: "MatchString_space ''.space''"
  by (simp add: MatchString_space_def match_here_def)

lemma split_lines_nonempty: "split_lines s \<noteq> []"
  by (induction s) (auto split: list.splits)

lemma hd_split_lines: "hd (split_lines s) = takeWhile (\<lambda>c. c \<noteq> CHR 0x0A) s"
  using split_lines_nonempty by (induction s) (auto split: list.splits)

lemma tl_split_lines_Cons:
  "c \<noteq> CHR 0x0A \<Longrightarrow> tl (split_lines (c # cs)) = tl (split_lines cs)"
  using split_lines_nonempty[of cs] by (auto split: list.splits)

lemma newline_not_word: "\<not> is_word_char (CHR 0x0A)"
  by (simp add: is_word_char_def)

lemma match_here_iff:
  "match_here s \<longleftrightarrow>
     (\<exists>rest. s = ''.space'' @ rest \<and> (case rest of [] \<Rightarrow> True | c # cs \<Rightarrow> \<not> is_word_char c))"
proof
  assume m: "match_here s"
  have "s = take 6 s @ drop 6 s" by simp
  with m show "\<exists>rest. s = ''.space'' @ rest \<and>
                 (case rest of [] \<Rightarrow> True | c # cs \<Rightarrow> \<not> is_word_char c)"
    unfolding match_here_def by metis
next
  assume "\<exists>rest. s = ''.space'' @ rest \<and> (case rest of [] \<Rightarrow> True | c # cs \<Rightarrow> \<not> is_word_char c)"
  then show "match_here s"
    by (auto simp: match_here_def)
qed

text \<open>
  A match at a position of the text is a match at the start of what is left of its line:
  the six bytes hold no newline, and a newline after them is a word boundary as the end
  of the line is.
\<close>

lemma match_here_first_line:
  "match_here (takeWhile (\<lambda>c. c \<noteq> CHR 0x0A) s) = match_here s"
proof
  assume "match_here (takeWhile (\<lambda>c. c \<noteq> CHR 0x0A) s)"
  then obtain rest where t: "takeWhile (\<lambda>c. c \<noteq> CHR 0x0A) s = ''.space'' @ rest"
    and b: "case rest of [] \<Rightarrow> True | c # cs \<Rightarrow> \<not> is_word_char c"
    unfolding match_here_iff by blast
  have s: "s = ''.space'' @ (rest @ dropWhile (\<lambda>c. c \<noteq> CHR 0x0A) s)"
    using takeWhile_dropWhile_id[of "\<lambda>c. c \<noteq> CHR 0x0A" s] t by simp
  have "case rest @ dropWhile (\<lambda>c. c \<noteq> CHR 0x0A) s of [] \<Rightarrow> True | c # cs \<Rightarrow> \<not> is_word_char c"
  proof (cases rest)
    case Nil
    show ?thesis
    proof (cases "dropWhile (\<lambda>c. c \<noteq> CHR 0x0A) s")
      case dropped: Nil
      show ?thesis by (simp only: Nil dropped append_Nil list.case)
    next
      case (Cons d ds)
      then have "d = CHR 0x0A" using hd_dropWhile[of "\<lambda>c. c \<noteq> CHR 0x0A" s] by auto
      then show ?thesis using Cons \<open>rest = []\<close> newline_not_word by simp
    qed
  next
    case (Cons c cs)
    with b show ?thesis by simp
  qed
  with s show "match_here s" unfolding match_here_iff by blast
next
  assume "match_here s"
  then obtain rest where s: "s = ''.space'' @ rest"
    and b: "case rest of [] \<Rightarrow> True | c # cs \<Rightarrow> \<not> is_word_char c"
    unfolding match_here_iff by blast
  have t: "takeWhile (\<lambda>c. c \<noteq> CHR 0x0A) s = ''.space'' @ takeWhile (\<lambda>c. c \<noteq> CHR 0x0A) rest"
    by (simp add: s)
  have "case takeWhile (\<lambda>c. c \<noteq> CHR 0x0A) rest of [] \<Rightarrow> True | c # cs \<Rightarrow> \<not> is_word_char c"
    using b by (cases rest) auto
  with t show "match_here (takeWhile (\<lambda>c. c \<noteq> CHR 0x0A) s)"
    unfolding match_here_iff by blast
qed

lemma match_here_newline: "\<not> match_here (CHR 0x0A # cs)"
  by (simp add: match_here_def)

lemma match_from_lines:
  "match_from line_start s \<longleftrightarrow>
     (line_start \<and> match_here (hd (split_lines s))) \<or>
     (\<exists>l \<in> set (tl (split_lines s)). match_here l)"
proof (induction s arbitrary: line_start)
  case Nil
  show ?case by (simp add: match_here_def)
next
  case (Cons c cs)
  show ?case
  proof (cases "c = CHR 0x0A")
    case True
    have "set (split_lines cs) = insert (hd (split_lines cs)) (set (tl (split_lines cs)))"
      using split_lines_nonempty[of cs] by (cases "split_lines cs") auto
    with True show ?thesis
      by (simp add: Cons.IH match_here_newline match_here_def[of "[]"])
  next
    case False
    have "match_here (hd (split_lines (c # cs))) = match_here (c # cs)"
      by (simp only: hd_split_lines match_here_first_line)
    with False show ?thesis
      by (simp only: match_from.simps Cons.IH tl_split_lines_Cons[OF False]) simp
  qed
qed

text \<open>The pattern matches a text exactly when it matches at the start of one of its lines.\<close>

lemma MatchString_space_lines:
  "MatchString_space s \<longleftrightarrow> (\<exists>l \<in> set (split_lines s). match_here l)"
proof -
  have "set (split_lines s) = insert (hd (split_lines s)) (set (tl (split_lines s)))"
    using split_lines_nonempty[of s] by (cases "split_lines s") auto
  then show ?thesis
    by (simp add: MatchString_space_def match_from_lines)
qed

subsection \<open>AddSpaceToGitignore\<close>

lemma AddSpaceToGitignore_File:
  assumes "fs (Join (rootDir m) ''.gitignore'') = File contents True writable"
  shows "AddSpaceToGitignore Join fs m =
           (if MatchString_space contents then (fs, None)
            else if writable
            then (fs(Join (rootDir m) ''.gitignore'' :=
                       File (contents @ CHR 0x0A # ''.space'') True writable), None)
            else (fs, Some (Wrapped ''failed to append .space to .gitignore: '' ErrPermission)))"
  using assms
  by (simp add: AddSpaceToGitignore_def Let_def os_Stat_def readFile_def WriteFile_def)

text \<open>
  C7. Whatever is at the path of \<^verbatim>\<open>.gitignore\<close> (nothing, a file of any contents,
  or something that cannot be read), a second call of \<^verbatim>\<open>AddSpaceToGitignore\<close> right
  after a first one leaves the file system, and so the contents of \<^verbatim>\<open>.gitignore\<close>,
  as the first call left it.
\<close>

theorem AddSpaceToGitignore_idempotent:
  "fst (AddSpaceToGitignore Join (fst (AddSpaceToGitignore Join fs m)) m)
     = fst (AddSpaceToGitignore Join fs m)"
proof (cases "fs (Join (rootDir m) ''.gitignore'')")
  case Absent
  then show ?thesis
    by (simp add: AddSpaceToGitignore_def Let_def os_Stat_def os_IsNotExist_def WriteFile_def
          readFile_def MatchString_space_only owner_bits_filePermMode)
next
  case NoParent
  then show ?thesis
    by (simp add: AddSpaceToGitignore_def Let_def os_Stat_def os_IsNotExist_def WriteFile_def)
next
  case NotDir
  then show ?thesis
    by (simp add: AddSpaceToGitignore_def Let_def os_Stat_def os_IsNotExist_def readFile_def)
next
  case (File contents readable writable)
  show ?thesis
  proof (cases readable)
    case False
    with File show ?thesis
      by (simp add: AddSpaceToGitignore_def Let_def os_Stat_def readFile_def)
  next
    case True
    with File have there: "fs (Join (rootDir m) ''.gitignore'') = File contents True writable"
      by simp
    note first = AddSpaceToGitignore_File[of fs Join m contents writable, OF there]
    show ?thesis
    proof (cases "MatchString_space contents \<or> \<not> writable")
      case True
      then have "fst (AddSpaceToGitignore Join fs m) = fs"
        by (auto simp: first)
      then show ?thesis by simp
    next
      case False
      let ?fs1 = "fs(Join (rootDir m) ''.gitignore'' :=
                       File (contents @ CHR 0x0A # ''.space'') True writable)"
      from False have once: "fst (AddSpaceToGitignore Join fs m) = ?fs1"
        by (simp add: first)
      have there1: "?fs1 (Join (rootDir m) ''.gitignore'') =
                      File (contents @ CHR 0x0A # ''.space'') True writable"
        by simp
      have "MatchString_space (contents @ CHR 0x0A # ''.space'')"
        unfolding MatchString_space_def by (rule match_from_appended)
      then have "fst (AddSpaceToGitignore Join ?fs1 m) = ?fs1"
        by (simp add: AddSpaceToGitignore_File[of ?fs1 Join m
                        "contents @ CHR 0x0A # ''.space''" writable, OF there1])
      with once show ?thesis by simp
    qed
  qed
next
  case Dir
  then show ?thesis
    by (simp add: AddSpaceToGitignore_def Let_def os_Stat_def readFile_def)
next
  case Denied
  then show ?thesis
    by (simp add: AddSpaceToGitignore_def Let_def os_Stat_def os_IsNotExist_def readFile_def)
qed

theorem AddSpaceToGitignore_idempotent_witness:
  "fst (AddSpaceToGitignore sample_Join
          (fst (AddSpaceToGitignore sample_Join (sample_fs (File ''node_modules'' True True))
                  sample_manager))
          sample_manager) ''/proj/.gitignore''
     = File ''node_modules\<newline>.space'' True True \<and>
   fst (AddSpaceToGitignore sample_Join
          (fst (AddSpaceToGitignore sample_Join (sample_fs Absent) sample_manager))
          sample_manager) ''/proj/.gitignore''
     = File ''.space'' True True"
proof -
  have path: "sample_Join (rootDir sample_manager) ''.gitignore'' = ''/proj/.gitignore''"
    by (simp add: sample_Join_def sample_manager_def)
  have unmatched: "\<not> MatchString_space ''node_modules''"
    by (simp add: MatchString_space_def match_here_def)
  have there: "sample_fs (File ''node_modules'' True True)
                 (sample_Join (rootDir sample_manager) ''.gitignore'')
                 = File ''node_modules'' True True"
    by (simp add: path sample_fs_def)
  have once: "fst (AddSpaceToGitignore sample_Join (sample_fs (File ''node_modules'' True True))
                     sample_manager)
                ''/proj/.gitignore'' = File ''node_modules\<newline>.space'' True True"
    using unmatched
      AddSpaceToGitignore_File[of "sample_fs (File ''node_modules'' True True)" sample_Join
        sample_manager "''node_modules''" True, OF there]
    by (simp add: path)
  have created: "fst (AddSpaceToGitignore sample_Join (sample_fs Absent) sample_manager)
                   ''/proj/.gitignore'' = File ''.space'' True True"
    by (simp add: AddSpaceToGitignore_def Let_def path sample_fs_def os_Stat_def os_IsNotExist_def
          WriteFile_def owner_bits_filePermMode)
  show ?thesis
    using AddSpaceToGitignore_idempotent[of sample_Join "sample_fs (File ''node_modules'' True True)"
            sample_manager]
      AddSpaceToGitignore_idempotent[of sample_Join "sample_fs Absent" sample_manager]
      once created
    by simp
qed

text \<open>
  C9. The check for an existing pattern looks for a line that starts with
  \<^verbatim>\<open>.space\<close> followed by a word boundary, not for the line \<^verbatim>\<open>.space\<close> itself.
  With a readable file at the path of \<^verbatim>\<open>.gitignore\<close>: if one of its lines starts
  so, the call leaves the file system as it is and returns \<^verbatim>\<open>nil\<close>; if none does,
  the call appends a newline and \<^verbatim>\<open>.space\<close> (on a file that may not be written,
  the append is tried and its permission error returned). A line that goes on after
  \<^verbatim>\<open>.space\<close> starts so exactly when its next byte is not a word character:
  \<^verbatim>\<open>.space-data\<close> and \<^verbatim>\<open>.space/\<close> do, \<^verbatim>\<open>.spacex\<close> does not.
\<close>

theorem AddSpaceToGitignore_line_start_match:
  assumes "fs (Join (rootDir m) ''.gitignore'') = File contents True writable"
  shows "((\<exists>l \<in> set (split_lines contents). match_here l) \<longrightarrow>
            AddSpaceToGitignore Join fs m = (fs, None)) \<and>
         (\<not> (\<exists>l \<in> set (split_lines contents). match_here l) \<longrightarrow>
            AddSpaceToGitignore Join fs m =
              (if writable
               then (fs(Join (rootDir m) ''.gitignore'' :=
                          File (contents @ CHR 0x0A # ''.space'') True writable), None)
               else (fs, Some (Wrapped ''failed to append .space to .gitignore: '' ErrPermission)))) \<and>
         match_here (''.space'' @ c # rest) = (\<not> is_word_char c) \<and>
         match_here ''.space-data'' \<and> match_here ''.space/'' \<and> \<not> match_here ''.spacex''"
proof -
  have "match_here (''.space'' @ c # rest) = (\<not> is_word_char c)"
    by (simp add: match_here_def)
  moreover have "match_here ''.space-data''" "match_here ''.space/''" "\<not> match_here ''.spacex''"
    by (simp_all add: match_here_def is_word_char_def)
  ultimately show ?thesis
    by (simp add: AddSpaceToGitignore_File[of fs Join m contents writable, OF assms]
          MatchString_space_lines)
qed

theorem AddSpaceToGitignore_line_start_match_witness:
  "AddSpaceToGitignore sample_Join (sample_fs (File ''build\<newline>.space-data\<newline>'' True True))
     sample_manager
     = (sample_fs (File ''build\<newline>.space-data\<newline>'' True True), None) \<and>
   AddSpaceToGitignore sample_Join (sample_fs (File ''.space/'' True True)) sample_manager
     = (sample_fs (File ''.space/'' True True), None) \<and>
   AddSpaceToGitignore sample_Join (sample_fs (File ''.spacex'' True True)) sample_manager
     = ((sample_fs (File ''.spacex'' True True))
          (''/proj/.gitignore'' := File ''.spacex\<newline>.space'' True True), None)"
proof -
  have path: "sample_Join (rootDir sample_manager) ''.gitignore'' = ''/proj/.gitignore''"
    by (simp add: sample_Join_def sample_manager_def)
  have there: "sample_fs (File contents True True) (sample_Join (rootDir sample_manager) ''.gitignore'')
                 = File contents True True" for contents
    by (simp add: path sample_fs_def)
  have data: "\<exists>l \<in> set (split_lines ''build\<newline>.space-data\<newline>''). match_here l"
    by (simp add: match_here_def is_word_char_def)
  have slash: "\<exists>l \<in> set (split_lines ''.space/''). match_here l"
    by (simp add: match_here_def is_word_char_def)
  have spacex: "\<not> (\<exists>l \<in> set (split_lines ''.spacex''). match_here l)"
    by (simp add: match_here_def is_word_char_def)
  show ?thesis
    using AddSpaceToGitignore_line_start_match[of
            "sample_fs (File ''build\<newline>.space-data\<newline>'' True True)"
            sample_Join sample_manager "''build\<newline>.space-data\<newline>''" True, OF there]
      AddSpaceToGitignore_line_start_match[of "sample_fs (File ''.space/'' True True)"
            sample_Join sample_manager "''.space/''" True, OF there]
      AddSpaceToGitignore_line_start_match[of "sample_fs (File ''.spacex'' True True)"
            sample_Join sample_manager "''.spacex''" True, OF there]
      data slash spacex
    by (simp add: path)
qed

end
